theory Spec2Isabelle
  imports Main "HOL-Library.Word"
begin

section \<open>Selecty: the chat component of \<open>src/Demo.tsx\<close>\<close>

text \<open>
  The development embeds the \<open>Chat\<close> component of \<open>Demo.tsx\<close> and the part of
  \<open>StylistConsultationService\<close> that mounts and unmounts it. React state
  (\<open>useState\<close>) and refs (\<open>useRef\<close>) are fields of a record; every event handler is a
  function from the state it reads to the state it leaves. The browser resources the
  handlers touch are explicit: the pending \<open>setTimeout\<close> callbacks, the pending
  \<open>getUserMedia\<close> and \<open>FileReader\<close> requests, and the store of \<open>MediaStream\<close> objects
  with the \<open>readyState\<close> of each track.

  Conventions of the embedding:
  \<^item> A JavaScript string is the list of its UTF-16 code units.
  \<^item> One event is handled at a time and the component is rendered again before the
    next event is handled, so a handler reads the state its predecessor left
    (the \<open>messages\<close> that \<open>handleSendMessage\<close> spreads is the current list).
  \<^item> A state setter of a component instance that has been unmounted does nothing;
    each mounted \<open>Chat\<close> instance has a number, and a callback carries the number of
    the instance that created it.
\<close>

subsection \<open>Strings and truthiness\<close>

type_synonym js_string = "16 word list"

text \<open>
  \<open>String.prototype.trim\<close> removes leading and trailing white space and line
  terminators: TAB, LF, VT, FF, CR, SPACE, NBSP, OGHAM SPACE MARK, U+2000 to U+200A,
  LS, PS, NNBSP, MMSP, IDEOGRAPHIC SPACE and the byte order mark. Each is one code
  unit, and no surrogate is white space, so trimming code units is trimming characters.
\<close>

definition isWhiteSpace :: "16 word \<Rightarrow> bool" where
  "isWhiteSpace u \<longleftrightarrow>
     u = 0x0009 \<or> u = 0x000A \<or> u = 0x000B \<or> u = 0x000C \<or> u = 0x000D \<or> u = 0x0020 \<or>
     u = 0x00A0 \<or> u = 0x1680 \<or> (0x2000 \<le> u \<and> u \<le> 0x200A) \<or> u = 0x2028 \<or>
     u = 0x2029 \<or> u = 0x202F \<or> u = 0x205F \<or> u = 0x3000 \<or> u = 0xFEFF"

definition trim :: "js_string \<Rightarrow> js_string" where
  "trim s = rev (dropWhile isWhiteSpace (rev (dropWhile isWhiteSpace s)))"

text \<open>A string is truthy when it is not empty; \<open>null\<close> is falsy.\<close>

definition truthy_string :: "js_string \<Rightarrow> bool" where
  "truthy_string s \<longleftrightarrow> s \<noteq> []"

definition truthy_image :: "js_string option \<Rightarrow> bool" where
  "truthy_image i = (case i of None \<Rightarrow> False | Some s \<Rightarrow> truthy_string s)"

subsection \<open>Data\<close>

text \<open>\<open>interface Message { text: string; sender: 'user' | 'stylist'; image?: string | null }\<close>\<close>

datatype sender = Sender_user | Sender_stylist

datatype image_field = Absent | Null | Ref js_string

record message =
  msg_text :: js_string
  msg_sender :: sender
  msg_image :: image_field

definition nullable :: "js_string option \<Rightarrow> image_field" where
  "nullable i = (case i of None \<Rightarrow> Null | Some s \<Rightarrow> Ref s)"

text \<open>
  \<open>interface Stylist\<close>: the handlers of \<open>Chat\<close> read none of its fields; the display
  fields (photo, introduction, specialty, rating) are left out.
\<close>

record stylist =
  stylist_id :: nat
  stylist_name :: js_string
  isOnline :: bool

text \<open>A \<open>MediaStreamTrack\<close> is \<open>live\<close> until \<open>stop()\<close> ends it.\<close>

datatype track_state = Live | Ended

text \<open>
  The store of \<open>MediaStream\<close> objects: a stream is the list of its tracks, and its
  reference is its position in the store. Streams are never removed.
\<close>

type_synonym stream_store = "track_state list list"

record video_element =
  srcObject :: "nat option"

datatype canvas_element = HTMLCanvasElement

text \<open>The state and the refs of one \<open>Chat\<close> instance.\<close>

record chat_state =
  messages :: "message list"
  inputMessage :: js_string
  showImageUpload :: bool
  capturedImage :: "js_string option"
  videoRef :: "video_element option"
  canvasRef :: "canvas_element option"

definition initialChat :: chat_state where
  "initialChat = \<lparr>messages = [], inputMessage = [], showImageUpload = False,
     capturedImage = None, videoRef = None, canvasRef = None\<rparr>"

subsection \<open>The handlers of \<open>Chat\<close>\<close>

text \<open>The reply text \<open>"\<dots>"\<close> of the timeout callback, as code units.\<close>

definition replyText :: js_string where
  "replyText = [0x30B9, 0x30BF, 0x30A4, 0x30EA, 0x30B9, 0x30C8, 0x304B, 0x3089, 0x306E,
     0x8FD4, 0x4FE1, 0x3092, 0x304A, 0x5F85, 0x3061, 0x304F, 0x3060, 0x3055, 0x3044, 0x3002]"

definition replyMessage :: message where
  "replyMessage = \<lparr>msg_text = replyText, msg_sender = Sender_stylist, msg_image = Absent\<rparr>"

text \<open>The updater \<open>prev => [...prev, {text: \<dots>, sender: 'stylist'}]\<close>.\<close>

definition replyUpdater :: "message list \<Rightarrow> message list" where
  "replyUpdater prev = prev @ [replyMessage]"

text \<open>
  \<open>handleSendMessage\<close>: the new state, and the delays of the timeouts it registers
  (each with the reply callback).
\<close>

definition handleSendMessage :: "chat_state \<Rightarrow> chat_state \<times> nat list" where
  "handleSendMessage c =
     (if truthy_string (trim (inputMessage c)) \<or> truthy_image (capturedImage c) then
        let newMessage = \<lparr>msg_text = inputMessage c, msg_sender = Sender_user,
                           msg_image = nullable (capturedImage c)\<rparr>
        in (c\<lparr>messages := messages c @ [newMessage], inputMessage := [],
               capturedImage := None\<rparr>, [1000])
      else (c, []))"

text \<open>
  \<open>stopCamera\<close>: stops every track of the stream bound to the video element, when an
  element is mounted and a stream is bound to it.
\<close>

definition stopCamera :: "chat_state \<Rightarrow> stream_store \<Rightarrow> chat_state \<times> stream_store" where
  "stopCamera c store =
     (case videoRef c of
        None \<Rightarrow> (c, store)
      | Some v \<Rightarrow>
          (case srcObject v of
             None \<Rightarrow> (c, store)
           | Some s \<Rightarrow> (c, store[s := map (\<lambda>track. Ended) (store ! s)])))"

text \<open>
  \<open>captureImage\<close>: \<open>imageDataUrl\<close> is what \<open>toDataURL('image/jpeg')\<close> returns for the
  canvas after \<open>drawImage\<close>; the browser decides it, so it is a parameter.
\<close>

definition captureImage :: "js_string \<Rightarrow> chat_state \<Rightarrow> stream_store \<Rightarrow> chat_state \<times> stream_store" where
  "captureImage imageDataUrl c store =
     (case canvasRef c of
        None \<Rightarrow> (c, store)
      | Some cv \<Rightarrow>
          (case videoRef c of
             None \<Rightarrow> (c, store)
           | Some v \<Rightarrow> stopCamera (c\<lparr>capturedImage := Some imageDataUrl\<rparr>) store))"

text \<open>
  \<open>startCamera\<close> awaits \<open>getUserMedia({ video: true })\<close>. When the browser grants the
  request it creates a stream of \<open>n\<close> live tracks; the rest of \<open>startCamera\<close> then binds
  it to the video element if one is mounted. When the request is rejected the
  \<open>catch\<close> block logs the error.
\<close>

definition getUserMedia_granted :: "nat \<Rightarrow> stream_store \<Rightarrow> nat \<times> stream_store" where
  "getUserMedia_granted n store = (length store, store @ [replicate n Live])"

definition startCamera_resolved :: "nat \<Rightarrow> chat_state \<Rightarrow> chat_state" where
  "startCamera_resolved stream c =
     (case videoRef c of
        None \<Rightarrow> c
      | Some v \<Rightarrow> c\<lparr>videoRef := Some (v\<lparr>srcObject := Some stream\<rparr>)\<rparr>)"

definition startCamera_rejected :: "chat_state \<Rightarrow> chat_state" where
  "startCamera_rejected c = c"

text \<open>\<open>reader.onload\<close> of \<open>handleFileUpload\<close>, with the data URL the reader produced.\<close>

definition handleFileUpload_onload :: "js_string \<Rightarrow> chat_state \<Rightarrow> chat_state" where
  "handleFileUpload_onload result c = c\<lparr>capturedImage := Some result\<rparr>"

text \<open>
  Rendering: the \<open>video\<close> and \<open>canvas\<close> elements are part of the tree exactly when
  \<open>showImageUpload\<close> holds. Mounting creates an element with nothing bound to it,
  unmounting sets the ref to \<open>null\<close>.
\<close>

definition render :: "chat_state \<Rightarrow> chat_state" where
  "render c =
     (if showImageUpload c then
        c\<lparr>videoRef := Some (case videoRef c of None \<Rightarrow> \<lparr>srcObject = None\<rparr> | Some v \<Rightarrow> v),
          canvasRef := Some HTMLCanvasElement\<rparr>
      else c\<lparr>videoRef := None, canvasRef := None\<rparr>)"

subsection \<open>The application: mounting the chat, timers and pending requests\<close>

text \<open>
  \<open>StylistConsultationService\<close> holds \<open>selectedStylist\<close> and renders \<open>Chat\<close> when it is
  set, \<open>StylistList\<close> otherwise. \<open>inst\<close> counts the \<open>Chat\<close> instances mounted so far and
  is the number of the mounted one. A pending timeout is the time it is due and the
  instance whose \<open>setMessages\<close> its callback calls; a pending \<open>getUserMedia\<close> or
  \<open>FileReader\<close> request is the instance that made it. (The booking dialog shares no
  state with the chat and is left out.)
\<close>

record world =
  selectedStylist :: "stylist option"
  chat :: "chat_state option"
  inst :: nat
  clock :: nat
  timers :: "(nat \<times> nat) list"
  camRequests :: "nat list"
  fileReads :: "nat list"
  streams :: stream_store

definition initialWorld :: world where
  "initialWorld = \<lparr>selectedStylist = None, chat = None, inst = 0, clock = 0, timers = [],
     camRequests = [], fileReads = [], streams = []\<rparr>"

text \<open>\<open>{selectedStylist ? <Chat \<dots> /> : <StylistList \<dots> />}\<close>\<close>

definition renderApp :: "world \<Rightarrow> world" where
  "renderApp w =
     (case selectedStylist w of
        None \<Rightarrow> w\<lparr>chat := None\<rparr>
      | Some s \<Rightarrow>
          (case chat w of
             None \<Rightarrow> w\<lparr>chat := Some initialChat, inst := Suc (inst w)\<rparr>
           | Some c \<Rightarrow> w))"

text \<open>\<open>onSelectStylist={setSelectedStylist}\<close> and \<open>onBack={() => setSelectedStylist(null)}\<close>\<close>

definition onSelectStylist :: "stylist \<Rightarrow> world \<Rightarrow> world" where
  "onSelectStylist s w = renderApp (w\<lparr>selectedStylist := Some s\<rparr>)"

definition onBack :: "world \<Rightarrow> world" where
  "onBack w = renderApp (w\<lparr>selectedStylist := None\<rparr>)"

text \<open>
  A timeout callback runs: \<open>setMessages(prev => \<dots>)\<close> of the instance that registered
  it. It updates the mounted chat when that is the instance, and nothing otherwise.
\<close>

fun fire :: "world \<Rightarrow> nat \<times> nat \<Rightarrow> world" where
  "fire w (due, owner) =
     (case chat w of
        None \<Rightarrow> w
      | Some c \<Rightarrow>
          if owner = inst w then w\<lparr>chat := Some (render (c\<lparr>messages := replyUpdater (messages c)\<rparr>))\<rparr>
          else w)"

text \<open>Time passes: every timeout due by then runs, in the order of registration.\<close>

definition elapse :: "nat \<Rightarrow> world \<Rightarrow> world" where
  "elapse dt w =
     (let t = clock w + dt;
          due = filter (\<lambda>(d, owner). d \<le> t) (timers w);
          rest = filter (\<lambda>(d, owner). \<not> d \<le> t) (timers w)
      in foldl fire (w\<lparr>clock := t, timers := rest\<rparr>) due)"

text \<open>
  The events. A control can be used only while it is rendered: the text field and the
  send button when \<open>showImageUpload\<close> is false; the camera, file, capture and done
  buttons when it is true; the discard button when moreover \<open>capturedImage\<close> is truthy;
  the attach button and the back button whenever the chat is mounted; the stylist
  cards when no stylist is selected.
\<close>

datatype event =
    SelectStylist stylist
  | Back
  | TypeText js_string
  | Send
  | OpenAttach
  | Done
  | Discard
  | CameraClick
  | CameraGranted nat
  | CameraDenied
  | Capture js_string
  | FileChosen
  | FileLoaded js_string
  | Elapse nat

fun step :: "event \<Rightarrow> world \<Rightarrow> world" where
  "step (SelectStylist s) w =
     (if selectedStylist w = None then onSelectStylist s w else w)"
| "step Back w =
     (case chat w of None \<Rightarrow> w | Some c \<Rightarrow> onBack w)"
| "step (TypeText t) w =
     (case chat w of
        None \<Rightarrow> w
      | Some c \<Rightarrow>
          if showImageUpload c then w
          else w\<lparr>chat := Some (render (c\<lparr>inputMessage := t\<rparr>))\<rparr>)"
| "step Send w =
     (case chat w of
        None \<Rightarrow> w
      | Some c \<Rightarrow>
          if showImageUpload c then w
          else (case handleSendMessage c of
                  (c', delays) \<Rightarrow>
                    w\<lparr>chat := Some (render c'),
                      timers := timers w @ map (\<lambda>d. (clock w + d, inst w)) delays\<rparr>))"
| "step OpenAttach w =
     (case chat w of
        None \<Rightarrow> w
      | Some c \<Rightarrow> w\<lparr>chat := Some (render (c\<lparr>showImageUpload := True\<rparr>))\<rparr>)"
| "step Done w =
     (case chat w of
        None \<Rightarrow> w
      | Some c \<Rightarrow>
          if showImageUpload c then w\<lparr>chat := Some (render (c\<lparr>showImageUpload := False\<rparr>))\<rparr>
          else w)"
| "step Discard w =
     (case chat w of
        None \<Rightarrow> w
      | Some c \<Rightarrow>
          if showImageUpload c \<and> truthy_image (capturedImage c)
          then w\<lparr>chat := Some (render (c\<lparr>capturedImage := None\<rparr>))\<rparr>
          else w)"
| "step CameraClick w =
     (case chat w of
        None \<Rightarrow> w
      | Some c \<Rightarrow>
          if showImageUpload c then w\<lparr>camRequests := camRequests w @ [inst w]\<rparr> else w)"
| "step (CameraGranted n) w =
     (case camRequests w of
        [] \<Rightarrow> w
      | owner # rest \<Rightarrow>
          (case getUserMedia_granted n (streams w) of
             (stream, store) \<Rightarrow>
               (case chat w of
                  None \<Rightarrow> w\<lparr>camRequests := rest, streams := store\<rparr>
                | Some c \<Rightarrow>
                    if owner = inst w
                    then w\<lparr>camRequests := rest, streams := store,
                           chat := Some (startCamera_resolved stream c)\<rparr>
                    else w\<lparr>camRequests := rest, streams := store\<rparr>)))"
| "step CameraDenied w =
     (case camRequests w of
        [] \<Rightarrow> w
      | owner # rest \<Rightarrow>
          (case chat w of
             None \<Rightarrow> w\<lparr>camRequests := rest\<rparr>
           | Some c \<Rightarrow>
               if owner = inst w
               then w\<lparr>camRequests := rest, chat := Some (startCamera_rejected c)\<rparr>
               else w\<lparr>camRequests := rest\<rparr>))"
| "step (Capture imageDataUrl) w =
     (case chat w of
        None \<Rightarrow> w
      | Some c \<Rightarrow>
          if showImageUpload c
          then (case captureImage imageDataUrl c (streams w) of
                  (c', store) \<Rightarrow> w\<lparr>chat := Some (render c'), streams := store\<rparr>)
          else w)"
| "step FileChosen w =
     (case chat w of
        None \<Rightarrow> w
      | Some c \<Rightarrow>
          if showImageUpload c then w\<lparr>fileReads := fileReads w @ [inst w]\<rparr> else w)"
| "step (FileLoaded result) w =
     (case fileReads w of
        [] \<Rightarrow> w
      | owner # rest \<Rightarrow>
          (case chat w of
             None \<Rightarrow> w\<lparr>fileReads := rest\<rparr>
           | Some c \<Rightarrow>
               if owner = inst w
               then w\<lparr>fileReads := rest, chat := Some (render (handleFileUpload_onload result c))\<rparr>
               else w\<lparr>fileReads := rest\<rparr>))"
| "step (Elapse dt) w = elapse dt w"

fun run :: "event list \<Rightarrow> world \<Rightarrow> world" where
  "run [] w = w"
| "run (e # es) w = run es (step e w)"

text \<open>The two stylists of the directory, by id and name.\<close>

definition yamada :: stylist where
  "yamada = \<lparr>stylist_id = 1, stylist_name = [0x5C71, 0x7530, 0x82B1, 0x5B50], isOnline = True\<rparr>"

definition suzuki :: stylist where
  "suzuki = \<lparr>stylist_id = 2, stylist_name = [0x9234, 0x6728, 0x4E00, 0x90CE], isOnline = False\<rparr>"

subsection \<open>Observations used in the statements\<close>

text \<open>
  \<open>MediaStream.active\<close> of the stream bound to the preview: a video element is
  mounted, a stream is bound to it and one of its tracks is live.
\<close>

definition cameraActive :: "chat_state \<Rightarrow> stream_store \<Rightarrow> bool" where
  "cameraActive c store =
     (case videoRef c of
        None \<Rightarrow> False
      | Some v \<Rightarrow>
          (case srcObject v of
             None \<Rightarrow> False
           | Some s \<Rightarrow> s < length store \<and> Live \<in> set (store ! s)))"

text \<open>The number of streams in the store that still have a live track.\<close>

definition activeStreams :: "stream_store \<Rightarrow> nat" where
  "activeStreams store = length (filter (\<lambda>tracks. Live \<in> set tracks) store)"

text \<open>
  The messages one event hands to \<open>setMessages\<close> for the mounted chat: the user
  message of an accepted send, and one reply for each timeout of the mounted instance
  that falls due. \<open>trace\<close> lists them for a sequence of events, in the order of the calls.
\<close>

fun produced :: "event \<Rightarrow> world \<Rightarrow> message list" where
  "produced Send w =
     (case chat w of
        None \<Rightarrow> []
      | Some c \<Rightarrow>
          if \<not> showImageUpload c \<and>
             (truthy_string (trim (inputMessage c)) \<or> truthy_image (capturedImage c))
          then [\<lparr>msg_text = inputMessage c, msg_sender = Sender_user,
                 msg_image = nullable (capturedImage c)\<rparr>]
          else [])"
| "produced (Elapse dt) w =
     replicate (length (filter (\<lambda>(d, owner). d \<le> clock w + dt \<and> owner = inst w) (timers w)))
       replyMessage"
| "produced e w = []"

fun trace :: "event list \<Rightarrow> world \<Rightarrow> message list" where
  "trace [] w = []"
| "trace (e # es) w = produced e w @ trace es (step e w)"

text \<open>
  Instance \<open>i\<close> is in the past: it is not mounted, and every instance mounted from now
  on has a greater number.
\<close>

definition later :: "nat \<Rightarrow> world \<Rightarrow> bool" where
  "later i w \<longleftrightarrow> (chat w = None \<and> i \<le> inst w) \<or> i < inst w"

text \<open>Concrete inputs: the text \<open>hi\<close>, the data URL \<open>data:,\<close>, a world with the chat open.\<close>

definition hi :: js_string where
  "hi = [0x68, 0x69]"

definition dataUrl :: js_string where
  "dataUrl = [0x64, 0x61, 0x74, 0x61, 0x3A, 0x2C]"

definition chatOpened :: world where
  "chatOpened = run [SelectStylist yamada] initialWorld"

text \<open>The chat in attachment mode, after one granted camera request of one track.\<close>

definition cameraOn :: world where
  "cameraOn = run [SelectStylist yamada, OpenAttach, CameraClick, CameraGranted 1] initialWorld"

section \<open>Properties\<close>

subsection \<open>Auxiliary facts\<close>

lemma trim_Nil_iff: "trim s = [] \<longleftrightarrow> (\<forall>u\<in>set s. isWhiteSpace u)"
proof
  assume "trim s = []"
  then have a: "\<forall>u\<in>set (dropWhile isWhiteSpace s). isWhiteSpace u"
    by (simp add: trim_def dropWhile_eq_Nil_conv)
  have "dropWhile isWhiteSpace s = []"
  proof (rule ccontr)
    assume n: "dropWhile isWhiteSpace s \<noteq> []"
    then have "\<not> isWhiteSpace (hd (dropWhile isWhiteSpace s))" by (rule hd_dropWhile)
    moreover have "hd (dropWhile isWhiteSpace s) \<in> set (dropWhile isWhiteSpace s)"
      using n by simp
    ultimately show False using a by blast
  qed
  then show "\<forall>u\<in>set s. isWhiteSpace u" by (simp add: dropWhile_eq_Nil_conv)
next
  assume "\<forall>u\<in>set s. isWhiteSpace u"
  then have d: "dropWhile isWhiteSpace s = []" by simp
  show "trim s = []" unfolding trim_def d by simp
qed

lemma render_fields [simp]:
  "messages (render c) = messages c"
  "inputMessage (render c) = inputMessage c"
  "capturedImage (render c) = capturedImage c"
  "showImageUpload (render c) = showImageUpload c"
  by (simp_all add: render_def)

lemma fire_inst [simp]: "inst (fire w t) = inst w"
  by (cases t) (simp split: option.splits)

lemma fire_chat_None [simp]: "chat w = None \<Longrightarrow> chat (fire w t) = None"
  by (cases t) simp

lemma foldl_fire_inst [simp]: "inst (foldl fire w ts) = inst w"
  by (induction ts arbitrary: w) simp_all

lemma foldl_fire_None [simp]: "chat w = None \<Longrightarrow> chat (foldl fire w ts) = None"
  by (induction ts arbitrary: w) simp_all

lemma fire_timers [simp]: "timers (fire w t) = timers w"
  by (cases t) (simp split: option.splits)

lemma foldl_fire_timers [simp]: "timers (foldl fire w ts) = timers w"
  by (induction ts arbitrary: w) simp_all

lemma fire_stale: "owner \<noteq> inst w \<Longrightarrow> fire w (due, owner) = w"
  by (simp split: option.splits)

lemma fire_own:
  "chat w = Some c \<Longrightarrow>
   fire w (due, inst w) = w\<lparr>chat := Some (render (c\<lparr>messages := replyUpdater (messages c)\<rparr>))\<rparr>"
  by simp

declare fire.simps [simp del]

lemma foldl_fire_messages:
  "chat w = Some c \<Longrightarrow>
   \<exists>c'. chat (foldl fire w ts) = Some c' \<and>
        messages c' = messages c @
          replicate (length (filter (\<lambda>(d, owner). owner = inst w) ts)) replyMessage"
proof (induction ts arbitrary: w c)
  case Nil
  then show ?case by simp
next
  case (Cons t ts)
  obtain d owner where t: "t = (d, owner)" by (cases t)
  show ?case
  proof (cases "owner = inst w")
    case True
    let ?c1 = "render (c\<lparr>messages := replyUpdater (messages c)\<rparr>)"
    have c1: "chat (fire w t) = Some ?c1" using Cons.prems t True by (simp add: fire_own)
    from Cons.IH [OF c1] obtain c' where
      "chat (foldl fire (fire w t) ts) = Some c'"
      "messages c' = messages ?c1 @
          replicate (length (filter (\<lambda>(d, owner). owner = inst (fire w t)) ts)) replyMessage"
      by blast
    then show ?thesis using t True
      by (simp add: replyUpdater_def replicate_append_same)
  next
    case False
    then have "fire w t = w" using t by (simp add: fire_stale)
    then show ?thesis using Cons.IH [OF Cons.prems] t False by simp
  qed
qed

lemma elapse_messages:
  assumes "chat w = Some c"
  shows "\<exists>c'. chat (elapse dt w) = Some c' \<and> messages c' = messages c @ produced (Elapse dt) w"
proof -
  let ?t = "clock w + dt"
  let ?w = "w\<lparr>clock := ?t, timers := filter (\<lambda>(d, owner). \<not> d \<le> ?t) (timers w)\<rparr>"
  have "chat ?w = Some c" using assms by simp
  from foldl_fire_messages [OF this, of "filter (\<lambda>(d, owner). d \<le> ?t) (timers w)"]
  obtain c' where c': "chat (foldl fire ?w (filter (\<lambda>(d, owner). d \<le> ?t) (timers w))) = Some c'"
    "messages c' = messages c @ replicate (length (filter (\<lambda>(d, owner). owner = inst ?w)
        (filter (\<lambda>(d, owner). d \<le> ?t) (timers w)))) replyMessage" by blast
  have "filter (\<lambda>(d, owner). owner = inst w) (filter (\<lambda>(d, owner). d \<le> ?t) (timers w))
      = filter (\<lambda>(d, owner). d \<le> ?t \<and> owner = inst w) (timers w)"
    by (simp add: case_prod_unfold)
  then show ?thesis using c' by (simp add: elapse_def Let_def)
qed

lemma step_messages:
  assumes "chat w = Some c" "e \<noteq> Back"
  shows "\<exists>c'. chat (step e w) = Some c' \<and> messages c' = messages c @ produced e w"
proof (cases e)
  case (Elapse dt)
  then show ?thesis using elapse_messages [OF assms(1)] by simp
next
  case Send
  then show ?thesis using assms
    by (simp add: handleSendMessage_def Let_def)
next
  case (SelectStylist s)
  then show ?thesis using assms
    by (simp add: onSelectStylist_def renderApp_def)
next
  case (CameraGranted n)
  then show ?thesis using assms
    by (simp add: getUserMedia_granted_def startCamera_resolved_def split: list.splits option.splits)
next
  case CameraDenied
  then show ?thesis using assms
    by (simp add: startCamera_rejected_def split: list.splits)
next
  case (Capture u)
  then show ?thesis using assms
    by (auto simp add: captureImage_def stopCamera_def split: option.splits prod.splits)
next
  case (FileLoaded r)
  then show ?thesis using assms
    by (simp add: handleFileUpload_onload_def split: list.splits)
qed (use assms in simp_all)

lemma run_messages:
  "chat w = Some c \<Longrightarrow> Back \<notin> set es \<Longrightarrow>
   \<exists>c'. chat (run es w) = Some c' \<and> messages c' = messages c @ trace es w"
proof (induction es arbitrary: w c)
  case Nil
  then show ?case by simp
next
  case (Cons e es)
  then have "e \<noteq> Back" by auto
  from step_messages [OF Cons.prems(1) this] obtain c1 where
    c1: "chat (step e w) = Some c1" "messages c1 = messages c @ produced e w" by blast
  from Cons.IH [OF c1(1)] Cons.prems(2) obtain c' where
    "chat (run es (step e w)) = Some c'" "messages c' = messages c1 @ trace es (step e w)" by auto
  then show ?case using c1 by simp
qed

lemma elapse_inst [simp]: "inst (elapse dt w) = inst w"
  by (simp add: elapse_def Let_def)

lemma elapse_None [simp]: "chat w = None \<Longrightarrow> chat (elapse dt w) = None"
  by (simp add: elapse_def Let_def)

lemma step_later: "later i w \<Longrightarrow> later i (step e w)"
proof (cases e)
  case (Elapse dt)
  assume "later i w"
  then show ?thesis using Elapse by (auto simp: later_def)
next
  case (SelectStylist s)
  assume "later i w"
  then show ?thesis using SelectStylist
    by (auto simp: later_def onSelectStylist_def renderApp_def split: option.splits)
next
  case Back
  assume "later i w"
  then show ?thesis using Back
    by (auto simp: later_def onBack_def renderApp_def split: option.splits)
next
  case Send
  assume "later i w"
  then show ?thesis using Send
    by (auto simp: later_def split: option.splits prod.splits)
next
  case (CameraGranted n)
  assume "later i w"
  then show ?thesis using CameraGranted
    by (auto simp: later_def split: option.splits prod.splits list.splits)
next
  case CameraDenied
  assume "later i w"
  then show ?thesis using CameraDenied
    by (auto simp: later_def split: option.splits list.splits)
next
  case (Capture u)
  assume "later i w"
  then show ?thesis using Capture
    by (auto simp: later_def split: option.splits prod.splits)
next
  case (FileLoaded r)
  assume "later i w"
  then show ?thesis using FileLoaded
    by (auto simp: later_def split: option.splits list.splits)
qed (auto simp: later_def split: option.splits)

lemma run_later: "later i w \<Longrightarrow> later i (run es w)"
  by (induction es arbitrary: w) (simp_all add: step_later)

lemma later_fire: "later i w \<Longrightarrow> chat (fire w (due, i)) = chat w"
  by (auto simp: later_def fire.simps split: option.splits)

lemmas world_defs = initialWorld_def initialChat_def onSelectStylist_def onBack_def
  renderApp_def render_def elapse_def yamada_def suzuki_def chatOpened_def
lemmas handler_defs = handleSendMessage_def stopCamera_def captureImage_def
  getUserMedia_granted_def startCamera_resolved_def startCamera_rejected_def
  handleFileUpload_onload_def trim_def isWhiteSpace_def truthy_string_def truthy_image_def
  nullable_def replyUpdater_def

subsection \<open>Teardown and scheduled replies\<close>

text \<open>
  C1 asks that every outstanding reply be cancelled at teardown. A stylist is selected,
  \<open>hi\<close> is sent, and the user goes back 999 ms later: the chat is gone, and the reply
  due at 1000 ms is still scheduled.
\<close>

theorem back_cancels_counterexample:
  "clock (run [SelectStylist yamada, TypeText hi, Send, Elapse 999, Back] initialWorld) = 999 \<and>
   chat (run [SelectStylist yamada, TypeText hi, Send, Elapse 999, Back] initialWorld) = None \<and>
   timers (run [SelectStylist yamada, TypeText hi, Send, Elapse 999, Back] initialWorld) = [(1000, 1)]"
  by (simp add: world_defs handler_defs hi_def)

text \<open>
  C1, as the code has it. Going back unmounts the chat and discards its timeline, but
  cancels nothing: the timeouts pending before are pending after, and time passing
  removes exactly those that fall due, by running them. Their callbacks append to no
  timeline: none is mounted while the stylist list is shown, and whatever happens
  after the teardown (\<open>es\<close>), a callback of the instance that was torn down leaves the
  chat of that moment as it is.
\<close>

theorem back_cancels_no_reply:
  "timers (onBack w) = timers w \<and> chat (onBack w) = None \<and>
   timers (elapse dt (onBack w)) = filter (\<lambda>(d, owner). \<not> d \<le> clock w + dt) (timers w) \<and>
   chat (elapse dt (onBack w)) = None \<and>
   chat (fire (run es (onBack w)) (due, inst w)) = chat (run es (onBack w))"
proof -
  have b: "chat (onBack w) = None" "inst (onBack w) = inst w" "timers (onBack w) = timers w"
    "clock (onBack w) = clock w"
    by (simp_all add: onBack_def renderApp_def)
  have e: "timers (elapse dt (onBack w)) = filter (\<lambda>(d, owner). \<not> d \<le> clock w + dt) (timers w)"
    by (simp add: elapse_def Let_def b)
  from b have "later (inst w) (onBack w)" by (simp add: later_def)
  then have "later (inst w) (run es (onBack w))" by (rule run_later)
  then have "chat (fire (run es (onBack w)) (due, inst w)) = chat (run es (onBack w))"
    by (rule later_fire)
  then show ?thesis using b e by simp
qed

subsection \<open>Sending a message\<close>

text \<open>
  C2 promises a message for every non-empty text. The text of one space is not empty,
  and sending it with no staged image changes nothing and schedules nothing.
\<close>

theorem send_nonempty_counterexample:
  "inputMessage (initialChat\<lparr>inputMessage := [0x20]\<rparr>) \<noteq> [] \<and>
   handleSendMessage (initialChat\<lparr>inputMessage := [0x20]\<rparr>) = (initialChat\<lparr>inputMessage := [0x20]\<rparr>, []) \<and>
   chat (run [SelectStylist yamada, TypeText [0x20], Send] initialWorld) = Some (initialChat\<lparr>inputMessage := [0x20]\<rparr>) \<and>
   timers (run [SelectStylist yamada, TypeText [0x20], Send] initialWorld) = []"
  by (simp add: world_defs handler_defs)

text \<open>
  C2, with the guard of the code: when the trimmed text is not empty or the staged
  image is truthy, \<open>handleSendMessage\<close> appends one message of the user at the tail,
  with the text as typed and the staged image, clears the text and the staged image,
  and registers one timeout of 1000 ms. In a world where the chat is mounted in text
  mode, the timeout is due 1000 ms from now and belongs to the mounted instance.
\<close>

theorem send_appends_user_message:
  assumes "truthy_string (trim (inputMessage c)) \<or> truthy_image (capturedImage c)"
  shows "handleSendMessage c =
      (c\<lparr>messages := messages c @ [\<lparr>msg_text = inputMessage c, msg_sender = Sender_user,
                                     msg_image = nullable (capturedImage c)\<rparr>],
         inputMessage := [], capturedImage := None\<rparr>, [1000]) \<and>
    (chat w = Some c \<and> \<not> showImageUpload c \<longrightarrow>
       timers (step Send w) = timers w @ [(clock w + 1000, inst w)] \<and>
       (\<exists>c'. chat (step Send w) = Some c' \<and>
          messages c' = messages c @ [\<lparr>msg_text = inputMessage c, msg_sender = Sender_user,
                                        msg_image = nullable (capturedImage c)\<rparr>] \<and>
          inputMessage c' = [] \<and> capturedImage c' = None))"
  using assms by (auto simp add: handleSendMessage_def Let_def)

text \<open>
  The text \<open>hi\<close> with a staged image: the message carries both.
\<close>

theorem send_appends_user_message_witness:
  "truthy_string (trim (inputMessage (initialChat\<lparr>inputMessage := hi, capturedImage := Some dataUrl\<rparr>))) \<and>
   handleSendMessage (initialChat\<lparr>inputMessage := hi, capturedImage := Some dataUrl\<rparr>) =
     (initialChat\<lparr>messages := [\<lparr>msg_text = hi, msg_sender = Sender_user, msg_image = Ref dataUrl\<rparr>]\<rparr>,
      [1000]) \<and>
   timers (step Send (chatOpened\<lparr>chat := Some (initialChat\<lparr>inputMessage := hi, capturedImage := Some dataUrl\<rparr>)\<rparr>))
     = [(1000, 1)]"
proof -
  let ?c = "initialChat\<lparr>inputMessage := hi, capturedImage := Some dataUrl\<rparr>"
  let ?w = "chatOpened\<lparr>chat := Some ?c\<rparr>"
  have h: "truthy_string (trim (inputMessage ?c))"
    by (simp add: hi_def handler_defs)
  have w: "chat ?w = Some ?c \<and> \<not> showImageUpload ?c" "timers ?w = []" "clock ?w = 0" "inst ?w = 1"
    by (simp_all add: world_defs)
  from send_appends_user_message [of ?c ?w] h w show ?thesis
    by (simp add: initialChat_def nullable_def)
qed

subsection \<open>Sending nothing\<close>

text \<open>
  C3: with an empty text and no staged image, \<open>handleSendMessage\<close> leaves the state
  as it is and registers no timeout; in a world where the chat is mounted, the
  timeline, the text, the staged image and the pending timeouts are the same after
  the send event.
\<close>

theorem send_empty_is_rejected:
  assumes "inputMessage c = []" and "capturedImage c = None"
  shows "handleSendMessage c = (c, []) \<and>
    (chat w = Some c \<longrightarrow>
       timers (step Send w) = timers w \<and>
       (\<exists>c'. chat (step Send w) = Some c' \<and> messages c' = messages c \<and>
          inputMessage c' = inputMessage c \<and> capturedImage c' = capturedImage c))"
  using assms by (simp add: handler_defs)

text \<open>
  A send in the chat that has just been opened.
\<close>

theorem send_empty_is_rejected_witness:
  "inputMessage initialChat = [] \<and> capturedImage initialChat = None \<and>
   chat chatOpened = Some initialChat \<and>
   handleSendMessage initialChat = (initialChat, []) \<and>
   timers (step Send chatOpened) = timers chatOpened"
proof -
  have h: "inputMessage initialChat = []" "capturedImage initialChat = None"
    "chat chatOpened = Some initialChat"
    by (simp_all add: world_defs)
  from send_empty_is_rejected [OF h(1,2), of chatOpened] h show ?thesis by simp
qed

subsection \<open>The timeline is append-only\<close>

text \<open>
  C4: while the chat stays mounted (no event of the sequence is the back button), the
  timeline after any sequence of events is the timeline before, followed by the
  messages the events appended, in the order of the calls. In particular the earlier
  timeline is a prefix of the later one: nothing is removed and nothing is reordered.
\<close>

theorem timeline_appends_in_call_order:
  assumes "chat w = Some c" and "Back \<notin> set es"
  shows "\<exists>c'. chat (run es w) = Some c' \<and> messages c' = messages c @ trace es w \<and>
           take (length (messages c)) (messages c') = messages c"
proof -
  from run_messages [OF assms] obtain c' where
    "chat (run es w) = Some c'" "messages c' = messages c @ trace es w" by blast
  then show ?thesis by simp
qed

text \<open>
  Two sends with the reply to the first falling due between them.
\<close>

theorem timeline_appends_in_call_order_witness:
  "chat chatOpened = Some initialChat \<and> Back \<notin> set [TypeText hi, Send, Elapse 1000, TypeText hi, Send] \<and>
   (\<exists>c'. chat (run [TypeText hi, Send, Elapse 1000, TypeText hi, Send] chatOpened) = Some c' \<and>
      messages c' = [\<lparr>msg_text = hi, msg_sender = Sender_user, msg_image = Null\<rparr>, replyMessage,
                     \<lparr>msg_text = hi, msg_sender = Sender_user, msg_image = Null\<rparr>])"
proof -
  have h: "chat chatOpened = Some initialChat"
    "Back \<notin> set [TypeText hi, Send, Elapse 1000, TypeText hi, Send]"
    by (simp_all add: world_defs)
  have t: "trace [TypeText hi, Send, Elapse 1000, TypeText hi, Send] chatOpened =
     [\<lparr>msg_text = hi, msg_sender = Sender_user, msg_image = Null\<rparr>, replyMessage,
      \<lparr>msg_text = hi, msg_sender = Sender_user, msg_image = Null\<rparr>]"
    by (simp add: world_defs handler_defs hi_def fire.simps)
  from timeline_appends_in_call_order [OF h] t h show ?thesis
    by (simp add: initialChat_def)
qed

subsection \<open>Capturing a frame\<close>

text \<open>
  C5 says that a capture with no stream bound stages no image. In attachment mode,
  with the camera never started (nothing bound to the video element, no stream in the
  store), the capture button stages the image.
\<close>

theorem capture_without_stream_counterexample:
  "streams (run [SelectStylist yamada, OpenAttach, Capture dataUrl] initialWorld) = [] \<and>
   chat (run [SelectStylist yamada, OpenAttach, Capture dataUrl] initialWorld) =
     Some (initialChat\<lparr>showImageUpload := True, capturedImage := Some dataUrl,
             videoRef := Some \<lparr>srcObject = None\<rparr>, canvasRef := Some HTMLCanvasElement\<rparr>)"
  by (simp add: world_defs handler_defs)

text \<open>
  C5, as the code has it. \<open>captureImage\<close> tests the two elements and not the stream:
  when the canvas or the video element is missing it changes nothing, and when both
  are mounted it stages the encoded canvas, whether or not a stream is bound.
\<close>

theorem capture_is_gated_on_elements:
  "(canvasRef c = None \<or> videoRef c = None \<longrightarrow> captureImage u c store = (c, store)) \<and>
   (canvasRef c \<noteq> None \<and> videoRef c \<noteq> None \<longrightarrow>
      capturedImage (fst (captureImage u c store)) = Some u)"
  by (auto simp add: captureImage_def stopCamera_def split: option.splits)

text \<open>
  The chat outside attachment mode, and a chat with both elements and no stream.
\<close>

theorem capture_is_gated_on_elements_witness:
  "canvasRef initialChat = None \<and> captureImage dataUrl initialChat [] = (initialChat, []) \<and>
   canvasRef (initialChat\<lparr>videoRef := Some \<lparr>srcObject = None\<rparr>, canvasRef := Some HTMLCanvasElement\<rparr>) \<noteq> None \<and>
   videoRef (initialChat\<lparr>videoRef := Some \<lparr>srcObject = None\<rparr>, canvasRef := Some HTMLCanvasElement\<rparr>) \<noteq> None \<and>
   capturedImage (fst (captureImage dataUrl
     (initialChat\<lparr>videoRef := Some \<lparr>srcObject = None\<rparr>, canvasRef := Some HTMLCanvasElement\<rparr>) []))
     = Some dataUrl"
proof -
  let ?c = "initialChat\<lparr>videoRef := Some \<lparr>srcObject = None\<rparr>, canvasRef := Some HTMLCanvasElement\<rparr>"
  have a: "canvasRef initialChat = None" by (simp add: initialChat_def)
  have b: "canvasRef ?c \<noteq> None \<and> videoRef ?c \<noteq> None" by simp
  from capture_is_gated_on_elements [of initialChat dataUrl "[]"]
       capture_is_gated_on_elements [of ?c dataUrl "[]"] a b
  show ?thesis by simp
qed

subsection \<open>Starting the camera twice\<close>

text \<open>
  C6 says no sequence of operations leaves two live streams held. Starting the camera
  twice does.
\<close>

theorem second_stream_counterexample:
  "streams (run [SelectStylist yamada, OpenAttach, CameraClick, CameraGranted 1,
                 CameraClick, CameraGranted 1] initialWorld) = [[Live], [Live]] \<and>
   activeStreams (streams (run [SelectStylist yamada, OpenAttach, CameraClick, CameraGranted 1,
                 CameraClick, CameraGranted 1] initialWorld)) = 2"
  by (simp add: world_defs handler_defs activeStreams_def)

text \<open>
  C6, as the code has it. When a camera request of the mounted chat is granted while
  a video element is mounted, the new stream is added to the store and bound to the
  element in place of whatever was bound; no stream of the store is stopped, so the
  number of streams with a live track grows by one (when the new stream has a
  track). The element has one binding at a time; the streams held are not limited.
\<close>

theorem startCamera_keeps_earlier_streams:
  assumes "camRequests w = inst w # rest" and "chat w = Some c" and "videoRef c = Some v"
  shows "streams (step (CameraGranted n) w) = streams w @ [replicate n Live] \<and>
    chat (step (CameraGranted n) w) =
      Some (c\<lparr>videoRef := Some (v\<lparr>srcObject := Some (length (streams w))\<rparr>)\<rparr>) \<and>
    activeStreams (streams (step (CameraGranted n) w)) =
      activeStreams (streams w) + (if 0 < n then 1 else 0)"
  using assms
  by (simp add: getUserMedia_granted_def startCamera_resolved_def activeStreams_def)

text \<open>
  A second request and grant in the world where the camera is already on.
\<close>

theorem startCamera_keeps_earlier_streams_witness:
  "camRequests (step CameraClick cameraOn) = [inst (step CameraClick cameraOn)] \<and>
   streams (step CameraClick cameraOn) = [[Live]] \<and>
   streams (step (CameraGranted 1) (step CameraClick cameraOn)) = [[Live], [Live]] \<and>
   activeStreams (streams (step (CameraGranted 1) (step CameraClick cameraOn))) = 2"
proof -
  let ?c = "initialChat\<lparr>showImageUpload := True,
     videoRef := Some \<lparr>srcObject = Some 0\<rparr>, canvasRef := Some HTMLCanvasElement\<rparr>"
  let ?w = "step CameraClick cameraOn"
  have h: "camRequests ?w = inst ?w # []" "chat ?w = Some ?c"
    "videoRef ?c = Some \<lparr>srcObject = Some 0\<rparr>" "streams ?w = [[Live]]"
    by (simp_all add: cameraOn_def world_defs handler_defs)
  from startCamera_keeps_earlier_streams [OF h(1,2,3), of 1] h
  show ?thesis by (simp add: activeStreams_def)
qed

subsection \<open>A capture stages the image and stops the bound stream\<close>

text \<open>
  C7 says that after a capture the camera stream is no longer active. The capture
  stops the stream bound to the video element and no other. When the camera was
  started twice, the capture stages the image and ends the second stream, and the
  first stays live. When the camera was started and attachment mode was left and
  entered again, the new video element has nothing bound: the capture stages the
  image and the stream stays live.
\<close>

theorem capture_leaves_stream_live_counterexample:
  "chat (run [SelectStylist yamada, OpenAttach, CameraClick, CameraGranted 1,
              CameraClick, CameraGranted 1, Capture dataUrl] initialWorld) =
     Some (initialChat\<lparr>showImageUpload := True, capturedImage := Some dataUrl,
             videoRef := Some \<lparr>srcObject = Some 1\<rparr>, canvasRef := Some HTMLCanvasElement\<rparr>) \<and>
   streams (run [SelectStylist yamada, OpenAttach, CameraClick, CameraGranted 1,
                 CameraClick, CameraGranted 1, Capture dataUrl] initialWorld) = [[Live], [Ended]] \<and>
   chat (run [SelectStylist yamada, OpenAttach, CameraClick, CameraGranted 1,
              Done, OpenAttach, Capture dataUrl] initialWorld) =
     Some (initialChat\<lparr>showImageUpload := True, capturedImage := Some dataUrl,
             videoRef := Some \<lparr>srcObject = None\<rparr>, canvasRef := Some HTMLCanvasElement\<rparr>) \<and>
   streams (run [SelectStylist yamada, OpenAttach, CameraClick, CameraGranted 1,
                 Done, OpenAttach, Capture dataUrl] initialWorld) = [[Live]]"
  by (simp add: world_defs handler_defs)

text \<open>
  C7, as the code has it. After \<open>captureImage\<close> with both elements mounted, the chat
  is the chat before with the captured image staged, the video element and its
  binding included. The store is the store before, except that every track of the
  stream bound to the video element is ended: every other stream is as it was, and
  with nothing bound the store is unchanged. The bound stream is not active after.
\<close>

theorem capture_stops_bound_stream_only:
  assumes "canvasRef c = Some cv" and "videoRef c = Some v"
  shows "captureImage u c store =
      (c\<lparr>capturedImage := Some u\<rparr>,
       case srcObject v of
         None \<Rightarrow> store
       | Some s \<Rightarrow> store[s := replicate (length (store ! s)) Ended]) \<and>
    length (snd (captureImage u c store)) = length store \<and>
    (\<forall>s. srcObject v = Some s \<and> s < length store \<longrightarrow>
       snd (captureImage u c store) ! s = replicate (length (store ! s)) Ended \<and>
       (\<forall>t. t \<noteq> s \<longrightarrow> snd (captureImage u c store) ! t = store ! t)) \<and>
    \<not> cameraActive (fst (captureImage u c store)) (snd (captureImage u c store))"
  using assms
  by (auto simp add: captureImage_def stopCamera_def cameraActive_def map_replicate_const
        split: option.splits)

text \<open>
  Two live streams with the second one bound: the capture ends the second only.
\<close>

theorem capture_stops_bound_stream_only_witness:
  "captureImage dataUrl
     (initialChat\<lparr>showImageUpload := True, videoRef := Some \<lparr>srcObject = Some 1\<rparr>,
        canvasRef := Some HTMLCanvasElement\<rparr>) [[Live], [Live]] =
     (initialChat\<lparr>showImageUpload := True, capturedImage := Some dataUrl,
        videoRef := Some \<lparr>srcObject = Some 1\<rparr>, canvasRef := Some HTMLCanvasElement\<rparr>,
      [[Live], [Ended]]) \<and>
   cameraActive
     (initialChat\<lparr>showImageUpload := True, videoRef := Some \<lparr>srcObject = Some 1\<rparr>,
        canvasRef := Some HTMLCanvasElement\<rparr>) [[Live], [Live]]"
proof -
  let ?c = "initialChat\<lparr>showImageUpload := True, videoRef := Some \<lparr>srcObject = Some 1\<rparr>,
        canvasRef := Some HTMLCanvasElement\<rparr>"
  have h: "canvasRef ?c = Some HTMLCanvasElement" "videoRef ?c = Some \<lparr>srcObject = Some 1\<rparr>"
    by simp_all
  have a: "cameraActive ?c [[Live], [Live]]"
    by (simp add: cameraActive_def)
  from capture_stops_bound_stream_only [OF h, of dataUrl "[[Live], [Live]]"] a
  show ?thesis by (simp add: initialChat_def)
qed

subsection \<open>The reply\<close>

text \<open>
  C8: the updater of the timeout callback appends one message at the tail; its sender
  is the stylist and its text is the fixed reply text, which is not empty (not even
  after trimming). When the callback of the mounted instance runs, the chat has that
  message at the tail of its timeline.
\<close>

theorem reply_is_appended_at_tail:
  "replyUpdater prev = prev @ [replyMessage] \<and>
   msg_sender replyMessage = Sender_stylist \<and> msg_text replyMessage = replyText \<and>
   replyText \<noteq> [] \<and> truthy_string (trim replyText) \<and>
   (chat w = Some c \<longrightarrow>
      chat (fire w (due, inst w)) = Some (render (c\<lparr>messages := messages c @ [replyMessage]\<rparr>)))"
  by (simp add: replyUpdater_def replyMessage_def replyText_def fire.simps
        trim_def isWhiteSpace_def truthy_string_def)

text \<open>
  The reply to \<open>hi\<close>, 1000 ms after the send.
\<close>

theorem reply_is_appended_at_tail_witness:
  "chat (run [SelectStylist yamada, TypeText hi, Send] initialWorld) =
     Some (initialChat\<lparr>messages := [\<lparr>msg_text = hi, msg_sender = Sender_user, msg_image = Null\<rparr>]\<rparr>) \<and>
   chat (run [SelectStylist yamada, TypeText hi, Send, Elapse 1000] initialWorld) =
     Some (initialChat\<lparr>messages := [\<lparr>msg_text = hi, msg_sender = Sender_user, msg_image = Null\<rparr>,
                                      replyMessage]\<rparr>)"
proof -
  let ?w = "run [SelectStylist yamada, TypeText hi, Send] initialWorld"
  let ?c = "initialChat\<lparr>messages := [\<lparr>msg_text = hi, msg_sender = Sender_user, msg_image = Null\<rparr>]\<rparr>"
  have w: "chat ?w = Some ?c" "timers ?w = [(1000, 1)]" "inst ?w = 1" "clock ?w = 0"
    by (simp_all add: world_defs handler_defs hi_def)
  have e: "run [SelectStylist yamada, TypeText hi, Send, Elapse 1000] initialWorld
      = fire (?w\<lparr>clock := 1000, timers := []\<rparr>) (1000, inst (?w\<lparr>clock := 1000, timers := []\<rparr>))"
    using w(2,3,4) by (simp add: elapse_def)
  from reply_is_appended_at_tail [of "[]" "?w\<lparr>clock := 1000, timers := []\<rparr>" ?c 1000] w(1) e
  show ?thesis by (simp add: render_def initialChat_def)
qed

subsection \<open>Stopping the camera\<close>

text \<open>
  C9 says \<open>stopCamera\<close> unbinds the stream. With the camera on, the video element
  still refers to the stream after \<open>stopCamera\<close>.
\<close>

theorem stopCamera_unbinds_counterexample:
  "chat cameraOn = Some (initialChat\<lparr>showImageUpload := True,
       videoRef := Some \<lparr>srcObject = Some 0\<rparr>, canvasRef := Some HTMLCanvasElement\<rparr>) \<and>
   streams cameraOn = [[Live]] \<and>
   videoRef (fst (stopCamera (initialChat\<lparr>showImageUpload := True,
       videoRef := Some \<lparr>srcObject = Some 0\<rparr>, canvasRef := Some HTMLCanvasElement\<rparr>) [[Live]]))
     = Some \<lparr>srcObject = Some 0\<rparr>"
  by (simp add: cameraOn_def world_defs handler_defs)

text \<open>
  C9, as the code has it. \<open>stopCamera\<close> never changes the chat: with no video element
  or no stream bound it changes nothing at all; with a stream bound it ends every
  track of that stream, and the stream stays bound to the element.
\<close>

theorem stopCamera_stops_tracks_keeps_binding:
  "fst (stopCamera c store) = c \<and>
   (videoRef c = None \<or> (\<exists>v. videoRef c = Some v \<and> srcObject v = None) \<longrightarrow>
      stopCamera c store = (c, store)) \<and>
   (videoRef c = Some v \<and> srcObject v = Some s \<and> s < length store \<longrightarrow>
      snd (stopCamera c store) = store[s := replicate (length (store ! s)) Ended] \<and>
      \<not> cameraActive c (snd (stopCamera c store)))"
  by (auto simp add: stopCamera_def cameraActive_def map_replicate_const split: option.splits)

text \<open>
  A chat with no video element, and one bound to a stream of two live tracks.
\<close>

theorem stopCamera_stops_tracks_keeps_binding_witness:
  "videoRef initialChat = None \<and> stopCamera initialChat [[Live]] = (initialChat, [[Live]]) \<and>
   stopCamera (initialChat\<lparr>videoRef := Some \<lparr>srcObject = Some 0\<rparr>\<rparr>) [[Live, Live]] =
     (initialChat\<lparr>videoRef := Some \<lparr>srcObject = Some 0\<rparr>\<rparr>, [[Ended, Ended]])"
proof -
  let ?c = "initialChat\<lparr>videoRef := Some \<lparr>srcObject = Some 0\<rparr>\<rparr>"
  have a: "videoRef initialChat = None" by (simp add: initialChat_def)
  have b: "videoRef ?c = Some \<lparr>srcObject = Some 0\<rparr> \<and> srcObject \<lparr>srcObject = Some 0\<rparr> = Some 0 \<and>
           (0::nat) < length [[Live, Live]]" by simp
  from stopCamera_stops_tracks_keeps_binding [of initialChat "[[Live]]"]
       stopCamera_stops_tracks_keeps_binding [of ?c "[[Live, Live]]" "\<lparr>srcObject = Some 0\<rparr>" 0] a b
  show ?thesis by (simp add: prod_eq_iff numeral_2_eq_2)
qed

subsection \<open>White space\<close>

text \<open>
  C10: when every code unit of the text is white space and no image is staged,
  \<open>handleSendMessage\<close> changes nothing and registers no timeout; and whenever it
  changes the timeline, the message it appends carries the text as typed, not trimmed.
\<close>

theorem send_checks_trimmed_text:
  "((\<forall>u\<in>set (inputMessage c). isWhiteSpace u) \<and> capturedImage c = None \<longrightarrow>
      handleSendMessage c = (c, [])) \<and>
   (messages (fst (handleSendMessage c)) \<noteq> messages c \<longrightarrow>
      messages (fst (handleSendMessage c)) =
        messages c @ [\<lparr>msg_text = inputMessage c, msg_sender = Sender_user,
                       msg_image = nullable (capturedImage c)\<rparr>])"
  by (auto simp add: handleSendMessage_def Let_def trim_Nil_iff truthy_string_def truthy_image_def)

text \<open>
  A text of a space, an ideographic space and a line feed; and the text \<open>hi\<close> between
  two spaces, stored with its spaces.
\<close>

theorem send_checks_trimmed_text_witness:
  "list_all isWhiteSpace (inputMessage (initialChat\<lparr>inputMessage := [0x20, 0x3000, 0x0A]\<rparr>)) \<and>
   handleSendMessage (initialChat\<lparr>inputMessage := [0x20, 0x3000, 0x0A]\<rparr>) =
     (initialChat\<lparr>inputMessage := [0x20, 0x3000, 0x0A]\<rparr>, []) \<and>
   messages (fst (handleSendMessage (initialChat\<lparr>inputMessage := [0x20, 0x68, 0x69, 0x20]\<rparr>))) =
     [\<lparr>msg_text = [0x20, 0x68, 0x69, 0x20], msg_sender = Sender_user, msg_image = Null\<rparr>] \<and>
   trim [0x20, 0x68, 0x69, 0x20] = hi"
proof -
  let ?a = "initialChat\<lparr>inputMessage := [0x20, 0x3000, 0x0A]\<rparr>"
  let ?b = "initialChat\<lparr>inputMessage := [0x20, 0x68, 0x69, 0x20]\<rparr>"
  have a: "(\<forall>u\<in>set (inputMessage ?a). isWhiteSpace u) \<and> capturedImage ?a = None"
    by (simp add: isWhiteSpace_def initialChat_def)
  have b: "messages (fst (handleSendMessage ?b)) \<noteq> messages ?b"
    by (simp add: handler_defs initialChat_def)
  have t: "trim [0x20, 0x68, 0x69, 0x20] = hi"
    by (simp add: trim_def isWhiteSpace_def hi_def)
  from send_checks_trimmed_text [of ?a] send_checks_trimmed_text [of ?b] a b t
  show ?thesis by (simp add: initialChat_def nullable_def)
qed

end
